theory Spec2Isabelle
  imports Main
begin

section \<open>Levels of the taxonomy\<close>

text \<open>
  The six literals accepted for \<open>taxon\<close>, and the list \<open>self._taxa\<close> that fixes
  their order, root first.
\<close>

datatype taxon = Phylum | Class | Order | Family | Genus | Species

definition taxa :: "taxon list" where
  "taxa = [Phylum, Class, Order, Family, Genus, Species]"

text \<open>
  Exceptions. \<open>ValueError\<close>, \<open>TypeError\<close> and \<open>IndexError\<close> are raised by the Python
  code. \<open>ProgrammingError\<close> is raised by the module \<open>sqlite3\<close> for a statement text
  it refuses to hand to the engine; \<open>OperationalError\<close> and \<open>IntegrityError\<close> are the
  two classes the engine raises (a statement it cannot compile; a constraint that
  fails). \<open>Unmodelled\<close> is no exception of the program: it marks the statement texts
  in which the content of a hole closes the string literal of the template and goes on
  with SQL of its own. What the engine does with such a text is a matter of the whole
  SQL language and is not interpreted here (see \<open>literal\<close>).
\<close>

datatype constraint = UNIQUE | FOREIGN_KEY

datatype error =
    ValueError
  | TypeError
  | IndexError
  | ProgrammingError
  | OperationalError
  | IntegrityError constraint
  | Unmodelled

text \<open>\<open>list.index\<close>: the first position of a value, \<open>ValueError\<close> when it is absent.\<close>

fun index :: "'a list \<Rightarrow> 'a \<Rightarrow> nat option" where
  "index [] x = None"
| "index (y # ys) x = (if y = x then Some 0 else map_option Suc (index ys x))"

text \<open>Subscription of a list by an integer; a negative index counts from the end.\<close>

definition getitem :: "'a list \<Rightarrow> int \<Rightarrow> 'a option" where
  "getitem xs i =
     (if 0 \<le> i \<and> i < int (length xs) then Some (xs ! nat i)
      else if i < 0 \<and> - int (length xs) \<le> i then Some (xs ! nat (int (length xs) + i))
      else None)"

text \<open>
  The schema links each level to the next one: \<open>_create_tables\<close> gives table
  \<open>taxa[i]\<close> a foreign key into \<open>taxa[i - 1]\<close> for \<open>i\<close> in \<open>range(1, 6)\<close>, and
  \<open>_create_triggers\<close> installs on \<open>taxa[i]\<close> the two triggers that act on
  \<open>taxa[i + 1]\<close> for \<open>i\<close> in \<open>range(5)\<close>.
\<close>

fun child_level :: "taxon \<Rightarrow> taxon option" where
  "child_level Phylum = Some Class"
| "child_level Class = Some Order"
| "child_level Order = Some Family"
| "child_level Family = Some Genus"
| "child_level Genus = Some Species"
| "child_level Species = None"

fun parent_level :: "taxon \<Rightarrow> taxon option" where
  "parent_level Phylum = None"
| "parent_level Class = Some Phylum"
| "parent_level Order = Some Class"
| "parent_level Family = Some Order"
| "parent_level Genus = Some Family"
| "parent_level Species = Some Genus"

fun depth :: "taxon \<Rightarrow> nat" where
  "depth Phylum = 0"
| "depth Class = 1"
| "depth Order = 2"
| "depth Family = 3"
| "depth Genus = 4"
| "depth Species = 5"

section \<open>Rows and tables\<close>

text \<open>
  A row is the tuple the cursor hands back: \<open>(chinese, scientific, description)\<close> in
  table \<open>phylum\<close>, and \<open>(chinese, scientific, description, parent)\<close> in the five
  other tables. All columns are \<open>text NOT NULL\<close>. A table is the list of its rows
  in storage order.
\<close>

type_synonym row = "string list"

type_synonym database = "taxon \<Rightarrow> row list"

definition chinese_of :: "row \<Rightarrow> string" where
  "chinese_of r = r ! 0"

definition scientific_of :: "row \<Rightarrow> string" where
  "scientific_of r = r ! 1"

definition parent_of :: "row \<Rightarrow> string" where
  "parent_of r = r ! 3"

definition columns :: "taxon \<Rightarrow> nat" where
  "columns t = (if t = Phylum then 3 else 4)"

text \<open>
  The state of an open store: the content of the six tables and the setting of
  \<open>pragma foreign_keys\<close> of the connection.
\<close>

record taxonomy =
  tables :: database
  foreign_keys :: bool

section \<open>The statements of \<open>commands.py\<close>\<close>

text \<open>
  Each function of \<open>commands.py\<close> returns one fixed statement text with holes. A value
  of type \<open>sql\<close> is such a text: the constructor names the template, its arguments
  are the texts put into the holes.

  \<^item> \<open>commands_INITIALIZE\<close>: \<^verbatim>\<open>pragma foreign_keys = 1;\<close>
  \<^item> \<open>commands_create_data taxon values\<close>:
    \<^verbatim>\<open>insert into "{taxon}" values (*{values});\<close> where \<open>values\<close> is a Python list
    of strings, so that the hole is filled with the printed form of that list,
    for example \<^verbatim>\<open>values (*["'a', 'b', ''", "'p'"]);\<close>
  \<^item> \<open>commands_delete_data taxon chinese\<close>:
    \<^verbatim>\<open>delete from "{taxon}" where chinese = '{chinese}';\<close>
  \<^item> \<open>commands_retrieve_data_by_child taxon child_taxon child_chinese\<close>:
    \<^verbatim>\<open>select * from "{taxon}" where chinese =
      (select parent from "{child_taxon}" where chinese = '{child_chinese}')\<close>
  \<^item> \<open>commands_retrieve_data_by_chinese taxon chinese\<close>:
    \<^verbatim>\<open>select * from "{taxon}" where chinese = '{chinese}';\<close>
  \<^item> \<open>commands_retrieve_data_by_parent parent_taxon parent_chinese\<close>:
    \<^verbatim>\<open>select * from "{parent_taxon}" where parent = '{parent_chinese}';\<close>
  \<^item> \<open>commands_retrieve_data_by_taxon taxon\<close>: \<^verbatim>\<open>select * from "{taxon}";\<close>
  \<^item> \<open>commands_update_chinese taxon chinese new_chinese\<close>:
    \<^verbatim>\<open>update "{taxon}" set chinese = '{new_chinese}' where chinese = '{chinese}';\<close>
  \<^item> \<open>commands_update_scientific taxon chinese new_scientific\<close>:
    \<^verbatim>\<open>update "{taxon}" set scientific = '{new_scientific}' where chinese = '{chinese}';\<close>
\<close>

datatype sql =
    commands_INITIALIZE
  | commands_create_data taxon "string list"
  | commands_delete_data taxon string
  | commands_retrieve_data_by_child taxon taxon string
  | commands_retrieve_data_by_chinese taxon string
  | commands_retrieve_data_by_parent taxon string
  | commands_retrieve_data_by_taxon taxon
  | commands_update_chinese taxon string string
  | commands_update_scientific taxon string string

text \<open>
  What an f-string puts into a hole: the string itself, and the four letters
  \<open>None\<close> for the value \<open>None\<close>.
\<close>

fun format :: "string option \<Rightarrow> string" where
  "format None = ''None''"
| "format (Some s) = s"

text \<open>The f-string \<^verbatim>\<open>'{s}'\<close>: the text between two quote characters.\<close>

definition quoted :: "string \<Rightarrow> string" where
  "quoted s = [CHR 0x27] @ s @ [CHR 0x27]"

section \<open>The storage engine\<close>

subsection \<open>Reading the holes of a statement text\<close>

text \<open>
  In every template but \<open>create_data\<close> a hole stands between two quote characters,
  so that the engine starts to read a string literal at the first of them. Inside a
  string literal two quote characters in a row stand for one quote character, and a
  single one ends the literal; every other character stands for itself.
  \<open>unquote\<close> reads the content of a hole in this way: it yields the value of the
  literal when the literal ends with the quote character of the template, and \<open>None\<close>
  when a quote character of the content ends it before, or takes the quote character
  of the template for the second of a pair.
\<close>

fun unquote :: "string \<Rightarrow> string option" where
  "unquote [] = Some []"
| "unquote [c] = (if c = CHR 0x27 then None else Some [c])"
| "unquote (c # d # s) =
     (if c \<noteq> CHR 0x27 then map_option ((#) c) (unquote (d # s))
      else if d = CHR 0x27 then map_option ((#) c) (unquote s)
      else None)"

text \<open>
  Outside a string literal a quote character can be part of another token: of a comment
  (\<^verbatim>\<open>--\<close>, \<^verbatim>\<open>/*\<close>) or of a quoted name (\<^verbatim>\<open>"\<close>, \<^verbatim>\<open>`\<close>, \<^verbatim>\<open>[\<close>); and a semicolon
  ends the statement. A text is \<open>plain\<close> when it has none of these. A statement text
  whose holes are plain and hold an odd number of quote characters together cannot be
  split into tokens, since every string literal takes an even number of them: the
  engine rejects it with \<open>OperationalError\<close> and does nothing.
\<close>

fun no_comment :: "string \<Rightarrow> bool" where
  "no_comment (c # d # s) = (\<not> (c = CHR 0x2D \<and> d = CHR 0x2D) \<and> no_comment (d # s))"
| "no_comment s = True"

definition plain :: "string \<Rightarrow> bool" where
  "plain s = (list_all (\<lambda>c. c \<notin> {CHR 0x22, CHR 0x60, CHR 0x5B, CHR 0x2F, CHR 0x3B}) s
              \<and> no_comment s)"

definition quotes :: "string \<Rightarrow> nat" where
  "quotes s = length (filter (\<lambda>c. c = CHR 0x27) s)"

text \<open>
  The reading of a text with one hole, and of a text with two holes: the values of the
  string literals, or the exception. A text with a NUL character is refused by
  \<open>sqlite3\<close> itself, before the engine sees it (\<open>ProgrammingError\<close> since Python 3.11).
\<close>

definition literal :: "string \<Rightarrow> error + string" where
  "literal s =
     (if CHR 0x00 \<in> set s then Inl ProgrammingError
      else case unquote s of
             Some v \<Rightarrow> Inr v
           | None \<Rightarrow> if plain s \<and> odd (quotes s) then Inl OperationalError
                     else Inl Unmodelled)"

definition literals :: "string \<Rightarrow> string \<Rightarrow> error + (string \<times> string)" where
  "literals s s' =
     (if CHR 0x00 \<in> set s \<or> CHR 0x00 \<in> set s' then Inl ProgrammingError
      else case (unquote s, unquote s') of
             (Some v, Some v') \<Rightarrow> Inr (v, v')
           | _ \<Rightarrow> if plain s \<and> plain s' \<and> odd (quotes s + quotes s')
                   then Inl OperationalError
                   else Inl Unmodelled)"

text \<open>
  A text without quote and NUL characters is the literal of itself.
\<close>

definition sql_safe :: "string \<Rightarrow> bool" where
  "sql_safe s = (CHR 0x27 \<notin> set s \<and> CHR 0x00 \<notin> set s)"

subsection \<open>Statements and their triggers\<close>

text \<open>
  \<^verbatim>\<open>delete from "{t}" where P\<close>, with the trigger \<open>delete_{t}\<close> of
  \<open>create_trigger_delete_taxon\<close>: after each deleted row \<open>old\<close> the trigger runs
  \<^verbatim>\<open>delete from "{child_taxon}" where parent = old.chinese\<close>, which in turn fires
  the trigger of the child table for each row it deletes.
\<close>

function delete_where :: "taxon \<Rightarrow> (row \<Rightarrow> bool) \<Rightarrow> database \<Rightarrow> database" where
  "delete_where t P db =
     (let olds = filter P (db t);
          db1 = db(t := filter (\<lambda>r. \<not> P r) (db t))
      in case child_level t of
           None \<Rightarrow> db1
         | Some c \<Rightarrow>
             fold (\<lambda>old d. delete_where c (\<lambda>r. parent_of r = chinese_of old) d) olds db1)"
  by pat_completeness auto
termination
  by (relation "measure (\<lambda>(t, P, db). 6 - depth t)") (auto elim: child_level.elims)

text \<open>
  \<^verbatim>\<open>update "{t}" set ... where P\<close>, the assignment given as the function \<open>f\<close> on
  rows, with the trigger \<open>update_{t}_chinese\<close> of \<open>create_trigger_update_chinese\<close>.
  The trigger is declared \<^verbatim>\<open>after update on "{t}"\<close>, for every column: after each
  updated row it runs
  \<^verbatim>\<open>update "{child_taxon}" set parent = new.chinese where parent = old.chinese\<close>,
  which fires the trigger of the child table for each row it updates.
\<close>

function update_where ::
  "taxon \<Rightarrow> (row \<Rightarrow> bool) \<Rightarrow> (row \<Rightarrow> row) \<Rightarrow> database \<Rightarrow> database" where
  "update_where t P f db =
     (let olds = filter P (db t);
          db1 = db(t := map (\<lambda>r. if P r then f r else r) (db t))
      in case child_level t of
           None \<Rightarrow> db1
         | Some c \<Rightarrow>
             fold (\<lambda>old d. update_where c (\<lambda>r. parent_of r = chinese_of old)
                                (\<lambda>r. r[3 := chinese_of (f old)]) d) olds db1)"
  by pat_completeness auto
termination
  by (relation "measure (\<lambda>(t, P, f, db). 6 - depth t)") (auto elim: child_level.elims)

subsection \<open>Foreign keys\<close>

text \<open>
  The foreign keys of \<open>create_table_class_to_species\<close>: the parent of a row is meant
  to be the name of a row of the table above. \<open>fk_ok\<close> says that this holds of all
  rows. A file written with \<open>pragma foreign_keys\<close> off need not satisfy it:
  \<open>orphans db t c\<close> are the parent names in table \<open>c\<close> that name no row of table
  \<open>t\<close>.
\<close>

definition fk_ok :: "database \<Rightarrow> bool" where
  "fk_ok db =
     (\<forall>t \<in> set taxa. case child_level t of
         None \<Rightarrow> True
       | Some c \<Rightarrow> (\<forall>r \<in> set (db c). \<exists>p \<in> set (db t). chinese_of p = parent_of r))"

definition orphans :: "database \<Rightarrow> taxon \<Rightarrow> taxon \<Rightarrow> string list" where
  "orphans db t c =
     filter (\<lambda>q. q \<notin> set (map chinese_of (db t))) (map parent_of (db c))"

text \<open>
  With \<open>pragma foreign_keys\<close> on, the engine counts, while a statement and its
  triggers run, the references that lose the row they refer to and do not get one
  back, and the statement fails and changes nothing when the count is positive at its
  end. A reference that was without its row before the statement began is not counted:
  a store with such references is deleted from and updated like any other. For the
  statements of this program the count comes to a comparison of the store before and
  after. \<open>fk_opened db db'\<close>: in \<open>db'\<close> some name is referred to as parent and names
  no row of the level above, and was not such a name in \<open>db\<close>.
\<close>

definition fk_opened :: "database \<Rightarrow> database \<Rightarrow> bool" where
  "fk_opened db db' =
     (\<exists>t \<in> set taxa. case child_level t of
         None \<Rightarrow> False
       | Some c \<Rightarrow> (\<exists>q \<in> set (orphans db' t c). q \<notin> set (orphans db t c)))"

definition check_fk :: "taxonomy \<Rightarrow> database \<Rightarrow> error + (taxonomy \<times> row list)" where
  "check_fk self db' =
     (if foreign_keys self \<and> fk_opened (tables self) db' then Inl (IntegrityError FOREIGN_KEY)
      else Inr (self\<lparr>tables := db'\<rparr>, []))"

subsection \<open>Execution\<close>

text \<open>
  \<open>self._cursor.execute(sql)\<close>: the new state and the rows the cursor holds, or the
  exception raised (the state is then as before).

  \<^item> The text of \<open>commands_create_data\<close> has a \<open>*\<close> where the first value is due, and
    the engine rejects it with \<^verbatim>\<open>near "*": syntax error\<close> before it reads on,
    whatever the values are. (The printed form of a Python list has no NUL character.)
  \<^item> In the other templates the holes are read first (\<open>literal\<close>, \<open>literals\<close>); the
    statement then acts on the values of the literals.
  \<^item> In \<open>commands_retrieve_data_by_child\<close> the inner query yields the parent of the
    row named \<open>child_chinese\<close>, or NULL, which equals nothing. Table \<open>phylum\<close> has
    no column \<open>parent\<close>: with \<open>child_taxon\<close> = \<open>phylum\<close> the name \<open>parent\<close> is
    the column of the outer table.
  \<^item> \<open>commands_update_chinese\<close> fails on the primary key when the new name is the
    name of another row.
\<close>

fun execute :: "taxonomy \<Rightarrow> sql \<Rightarrow> error + (taxonomy \<times> row list)" where
  "execute self commands_INITIALIZE = Inr (self\<lparr>foreign_keys := True\<rparr>, [])"
| "execute self (commands_create_data t vs) = Inl OperationalError"
| "execute self (commands_delete_data t c) =
     (case literal c of
        Inl e \<Rightarrow> Inl e
      | Inr name \<Rightarrow>
          check_fk self (delete_where t (\<lambda>r. chinese_of r = name) (tables self)))"
| "execute self (commands_retrieve_data_by_child t ct c) =
     (case literal c of
        Inl e \<Rightarrow> Inl e
      | Inr name \<Rightarrow>
          if ct = Phylum then
            (if t = Phylum then Inl OperationalError
             else Inr (self, filter (\<lambda>r. (\<exists>p \<in> set (tables self Phylum). chinese_of p = name)
                                          \<and> chinese_of r = parent_of r) (tables self t)))
          else Inr (self, case find (\<lambda>r. chinese_of r = name) (tables self ct) of
                            None \<Rightarrow> []
                          | Some cr \<Rightarrow> filter (\<lambda>r. chinese_of r = parent_of cr) (tables self t)))"
| "execute self (commands_retrieve_data_by_chinese t c) =
     (case literal c of
        Inl e \<Rightarrow> Inl e
      | Inr name \<Rightarrow> Inr (self, filter (\<lambda>r. chinese_of r = name) (tables self t)))"
| "execute self (commands_retrieve_data_by_parent t p) =
     (case literal p of
        Inl e \<Rightarrow> Inl e
      | Inr name \<Rightarrow>
          if t = Phylum then Inl OperationalError
          else Inr (self, filter (\<lambda>r. parent_of r = name) (tables self t)))"
| "execute self (commands_retrieve_data_by_taxon t) = Inr (self, tables self t)"
| "execute self (commands_update_chinese t c n) =
     (case literals n c of
        Inl e \<Rightarrow> Inl e
      | Inr (new, old) \<Rightarrow>
          if (\<exists>r \<in> set (tables self t). chinese_of r = old) \<and> new \<noteq> old
             \<and> (\<exists>r \<in> set (tables self t). chinese_of r = new)
          then Inl (IntegrityError UNIQUE)
          else check_fk self
                 (update_where t (\<lambda>r. chinese_of r = old) (\<lambda>r. r[0 := new]) (tables self)))"
| "execute self (commands_update_scientific t c s) =
     (case literals s c of
        Inl e \<Rightarrow> Inl e
      | Inr (new, name) \<Rightarrow>
          check_fk self
            (update_where t (\<lambda>r. chinese_of r = name) (\<lambda>r. r[1 := new]) (tables self)))"

definition fetchone :: "row list \<Rightarrow> row option" where
  "fetchone rows = (case rows of [] \<Rightarrow> None | r # _ \<Rightarrow> Some r)"

definition fetchall :: "row list \<Rightarrow> row list" where
  "fetchall rows = rows"

section \<open>The class \<open>Taxonomy\<close>\<close>

text \<open>
  \<open>__init__\<close> connects to the file, executes \<open>commands.INITIALIZE\<close> and, when the
  file did not exist, creates the six tables and the ten triggers and commits. The
  columns, keys and triggers are the fixed schema that \<open>execute\<close> interprets; the
  argument is the content of the file, \<open>None\<close> when there is no file.
\<close>

definition init :: "database option \<Rightarrow> error + taxonomy" where
  "init file =
     (let connect = \<lparr>tables = (case file of None \<Rightarrow> (\<lambda>t. []) | Some d \<Rightarrow> d),
                     foreign_keys = False\<rparr>
      in case execute connect commands_INITIALIZE of
           Inl e \<Rightarrow> Inl e
         | Inr (self, rows) \<Rightarrow> Inr self)"

text \<open>
  \<open>create_data\<close>, the same in both copies of the class. The list \<open>values\<close> holds
  one string with the three quoted attributes and, below the root, a second one
  with the quoted parent.
\<close>

definition create_data ::
  "taxonomy \<Rightarrow> taxon \<Rightarrow> string \<Rightarrow> string \<Rightarrow> string \<Rightarrow> string option \<Rightarrow> error + taxonomy" where
  "create_data self taxon chinese scientific description parent =
     (case index taxa taxon of
        None \<Rightarrow> Inl ValueError
      | Some idx \<Rightarrow>
          (if idx = 0 \<and> parent \<noteq> None then Inl ValueError
           else
             (let values = [quoted chinese @ '', '' @ quoted scientific @ '', ''
                              @ quoted description];
                  values = (if idx \<noteq> 0 then values @ [quoted (format parent)] else values)
              in (case execute self (commands_create_data taxon values) of
                    Inl e \<Rightarrow> Inl e
                  | Inr (self', rows) \<Rightarrow> Inr self'))))"

definition delete_data :: "taxonomy \<Rightarrow> taxon \<Rightarrow> string \<Rightarrow> error + taxonomy" where
  "delete_data self taxon chinese =
     (case execute self (commands_delete_data taxon chinese) of
        Inl e \<Rightarrow> Inl e
      | Inr (self', rows) \<Rightarrow> Inr self')"

definition retrieve_data_by_child :: "taxonomy \<Rightarrow> taxon \<Rightarrow> string \<Rightarrow> error + row option" where
  "retrieve_data_by_child self child_taxon child_chinese =
     (case index taxa child_taxon of
        None \<Rightarrow> Inl ValueError
      | Some idx \<Rightarrow>
          (case getitem taxa (int idx - 1) of
             None \<Rightarrow> Inl IndexError
           | Some taxon \<Rightarrow>
               (case execute self
                       (commands_retrieve_data_by_child taxon child_taxon child_chinese) of
                  Inl e \<Rightarrow> Inl e
                | Inr (self', rows) \<Rightarrow> Inr (fetchone rows))))"

definition retrieve_data_by_chinese :: "taxonomy \<Rightarrow> taxon \<Rightarrow> string \<Rightarrow> error + row option" where
  "retrieve_data_by_chinese self taxon chinese =
     (case execute self (commands_retrieve_data_by_chinese taxon chinese) of
        Inl e \<Rightarrow> Inl e
      | Inr (self', rows) \<Rightarrow> Inr (fetchone rows))"

definition retrieve_data_by_taxon :: "taxonomy \<Rightarrow> taxon \<Rightarrow> error + row list" where
  "retrieve_data_by_taxon self taxon =
     (case execute self (commands_retrieve_data_by_taxon taxon) of
        Inl e \<Rightarrow> Inl e
      | Inr (self', rows) \<Rightarrow> Inr (fetchall rows))"

definition retrieve_data_by_parent ::
  "taxonomy \<Rightarrow> taxon \<Rightarrow> string option \<Rightarrow> error + row list" where
  "retrieve_data_by_parent self taxon parent_chinese =
     (if taxon = Phylum then retrieve_data_by_taxon self Phylum
      else case execute self
                  (commands_retrieve_data_by_parent taxon (format parent_chinese)) of
             Inl e \<Rightarrow> Inl e
           | Inr (self', rows) \<Rightarrow> Inr (fetchall rows))"

definition update_chinese :: "taxonomy \<Rightarrow> taxon \<Rightarrow> string \<Rightarrow> string \<Rightarrow> error + taxonomy" where
  "update_chinese self taxon chinese new_chinese =
     (case execute self (commands_update_chinese taxon chinese new_chinese) of
        Inl e \<Rightarrow> Inl e
      | Inr (self', rows) \<Rightarrow> Inr self')"


subsection \<open>The walk to the root\<close>

text \<open>
  \<open>retrieve_hierarchical_parents_by_child\<close> of \<open>taxonomy/taxonomy.py\<close>. An element
  of \<open>parents\<close> is a row, or \<open>None\<close> where a query found nothing. The loop
  \<open>while idx != 0\<close> is \<open>walk\<close>: it puts the parent in front, steps to
  \<open>taxa[idx - 1]\<close> and reads the next name from \<open>parent[0]\<close>, which raises
  \<open>TypeError\<close> on \<open>None\<close>.
\<close>

fun walk ::
  "taxonomy \<Rightarrow> nat \<Rightarrow> taxon \<Rightarrow> string \<Rightarrow> row option list \<Rightarrow> error + row option list" where
  "walk self 0 child_taxon child_chinese parents = Inr parents"
| "walk self (Suc idx) child_taxon child_chinese parents =
     (case retrieve_data_by_child self child_taxon child_chinese of
        Inl e \<Rightarrow> Inl e
      | Inr parent \<Rightarrow>
          (case getitem taxa (int idx) of
             None \<Rightarrow> Inl IndexError
           | Some child_taxon' \<Rightarrow>
               (case parent of
                  None \<Rightarrow> Inl TypeError
                | Some [] \<Rightarrow> Inl IndexError
                | Some (c # cs) \<Rightarrow> walk self idx child_taxon' c (parent # parents))))"

text \<open>The loop \<open>for item in parents: names.append(item[:2])\<close>.\<close>

fun names :: "row option list \<Rightarrow> error + row option list" where
  "names [] = Inr []"
| "names (None # items) = Inl TypeError"
| "names (Some item # items) =
     (case names items of Inl e \<Rightarrow> Inl e | Inr ns \<Rightarrow> Inr (Some (take 2 item) # ns))"

definition retrieve_hierarchical_parents_by_child ::
  "taxonomy \<Rightarrow> taxon \<Rightarrow> string \<Rightarrow> bool \<Rightarrow> bool \<Rightarrow> error + row option list" where
  "retrieve_hierarchical_parents_by_child self child_taxon child_chinese return_child names_only =
     (case (if return_child
            then (case retrieve_data_by_chinese self child_taxon child_chinese of
                    Inl e \<Rightarrow> Inl e
                  | Inr item \<Rightarrow> Inr [item])
            else Inr []) of
        Inl e \<Rightarrow> Inl e
      | Inr parents \<Rightarrow>
          (case index taxa child_taxon of
             None \<Rightarrow> Inl ValueError
           | Some idx \<Rightarrow>
               (case walk self idx child_taxon child_chinese parents of
                  Inl e \<Rightarrow> Inl e
                | Inr parents' \<Rightarrow> if names_only then names parents' else Inr parents')))"

text \<open>
  The copy in \<open>TaxonomyDatabase/taxonomy.py\<close> differs in two places: its loop has the
  guard \<open>if parent is None: return []\<close>, and its last loop reads
  \<open>names.append[item[:2]]\<close>, a subscription of the bound method, which raises
  \<open>TypeError\<close> for the first item. A return from inside the loop is \<open>Inl\<close> of
  the returned list in \<open>walk_TD\<close>.
\<close>

fun walk_TD ::
  "taxonomy \<Rightarrow> nat \<Rightarrow> taxon \<Rightarrow> string \<Rightarrow> row option list
     \<Rightarrow> error + (row option list + row option list)" where
  "walk_TD self 0 child_taxon child_chinese parents = Inr (Inr parents)"
| "walk_TD self (Suc idx) child_taxon child_chinese parents =
     (case retrieve_data_by_child self child_taxon child_chinese of
        Inl e \<Rightarrow> Inl e
      | Inr parent \<Rightarrow>
          (case parent of
             None \<Rightarrow> Inr (Inl [])
           | Some p \<Rightarrow>
               (case getitem taxa (int idx) of
                  None \<Rightarrow> Inl IndexError
                | Some child_taxon' \<Rightarrow>
                    (case p of
                       [] \<Rightarrow> Inl IndexError
                     | c # cs \<Rightarrow> walk_TD self idx child_taxon' c (parent # parents)))))"

fun names_TD :: "row option list \<Rightarrow> error + row option list" where
  "names_TD [] = Inr []"
| "names_TD (item # items) = Inl TypeError"

definition retrieve_hierarchical_parents_by_child_TD ::
  "taxonomy \<Rightarrow> taxon \<Rightarrow> string \<Rightarrow> bool \<Rightarrow> bool \<Rightarrow> error + row option list" where
  "retrieve_hierarchical_parents_by_child_TD self child_taxon child_chinese return_child
       names_only =
     (case (if return_child
            then (case retrieve_data_by_chinese self child_taxon child_chinese of
                    Inl e \<Rightarrow> Inl e
                  | Inr item \<Rightarrow> Inr [item])
            else Inr []) of
        Inl e \<Rightarrow> Inl e
      | Inr parents \<Rightarrow>
          (case index taxa child_taxon of
             None \<Rightarrow> Inl ValueError
           | Some idx \<Rightarrow>
               (case walk_TD self idx child_taxon child_chinese parents of
                  Inl e \<Rightarrow> Inl e
                | Inr (Inl returned) \<Rightarrow> Inr returned
                | Inr (Inr parents') \<Rightarrow>
                    if names_only then names_TD parents' else Inr parents')))"

section \<open>Stores and lineages\<close>

text \<open>
  A store is \<open>well_formed\<close> when every row has the columns of its table, \<open>chinese\<close>
  is a key of each table, and every foreign key is met. The first two hold of every
  file the engine has written under this schema; the third holds when the file was
  only written with \<open>pragma foreign_keys\<close> on, as \<open>__init__\<close> sets it.
\<close>

definition well_formed :: "database \<Rightarrow> bool" where
  "well_formed db =
     ((\<forall>t \<in> set taxa. (\<forall>r \<in> set (db t). length r = columns t)
                        \<and> distinct (map chinese_of (db t)))
      \<and> fk_ok db)"

text \<open>
  The rows that descend from the rows of table \<open>t\<close> picked by \<open>P\<close>: those rows
  themselves and, level by level, every row whose parent is the name of such a row.
\<close>

function descendant :: "database \<Rightarrow> taxon \<Rightarrow> (row \<Rightarrow> bool) \<Rightarrow> taxon \<Rightarrow> row \<Rightarrow> bool" where
  "descendant db t P u r =
     (if u = t then P r
      else case parent_level u of
             None \<Rightarrow> False
           | Some p \<Rightarrow> (\<exists>q \<in> set (db p). descendant db t P p q \<and> parent_of r = chinese_of q))"
  by pat_completeness auto
termination
  by (relation "measure (\<lambda>(db, t, P, u, r). depth u)") (auto elim: parent_level.elims)

definition lineage :: "database \<Rightarrow> taxon \<Rightarrow> string \<Rightarrow> taxon \<Rightarrow> row \<Rightarrow> bool" where
  "lineage db t name u r = descendant db t (\<lambda>q. chinese_of q = name) u r"

text \<open>
  The condition of the statement that the delete triggers run for the deleted rows
  \<open>olds\<close>, taken together: the parent is the name of one of them.
\<close>

definition children_of :: "row list \<Rightarrow> row \<Rightarrow> bool" where
  "children_of olds r = (\<exists>old \<in> set olds. parent_of r = chinese_of old)"

text \<open>
  What \<open>commands_update_chinese\<close> writes to a row of the table it names, and
  what its trigger then writes to a row of the child table.
\<close>

definition rename :: "string \<Rightarrow> string \<Rightarrow> row \<Rightarrow> row" where
  "rename old new r = (if chinese_of r = old then r[0 := new] else r)"

definition reparent :: "string \<Rightarrow> string \<Rightarrow> row \<Rightarrow> row" where
  "reparent old new r = (if parent_of r = old then r[3 := new] else r)"

text \<open>
  A store with one full chain from phylum to genus and two species, as the tests of
  the repository build it, and a second phylum with one class.
\<close>

definition example :: database where
  "example =
     (\<lambda>t. [])
       (Phylum := [[''lanzao-men'', ''Cyanophyta'', ''''], [''jiazao-men'', ''Dinophyta'', '''']],
        Class := [[''lanzao-gang'', ''Cyanophyceae'', '''', ''lanzao-men''],
                  [''jiazao-gang'', ''Dinophyceae'', '''', ''jiazao-men'']],
        Order := [[''seqiuzao-mu'', ''Chroococcales'', '''', ''lanzao-gang'']],
        Family := [[''weinangzao-ke'', ''Microcystaceae'', '''', ''seqiuzao-mu'']],
        Genus := [[''weinangzao-shu'', ''Microcystis'', '''', ''weinangzao-ke'']],
        Species := [[''tonglv'', ''Microcystis aeruginosa'', '''', ''weinangzao-shu''],
                    [''shuihua'', ''Microcystis flosaquae'', '''', ''weinangzao-shu'']])"

text \<open>
  Two names with an apostrophe, and a store in which a phylum of such a name has one
  class.
\<close>

definition OBrien :: string where
  "OBrien = ''O'' @ [CHR 0x27] @ ''Brien''"


definition example_quote :: database where
  "example_quote =
     (\<lambda>t. [])
       (Phylum := [[OBrien, ''Hibernia'', '''']],
        Class := [[''x-gang'', ''X'', '''', OBrien]])"

definition store :: "database \<Rightarrow> taxonomy" where
  "store db = \<lparr>tables = db, foreign_keys = True\<rparr>"

section \<open>Basic facts\<close>

lemma index_taxa: "index taxa t = Some (depth t)"
  by (cases t) (simp_all add: taxa_def)

lemma init_new_file: "init None = Inr (store (\<lambda>t. []))"
  by (simp add: init_def store_def)

lemma init_foreign_keys: "init file = Inr self \<Longrightarrow> foreign_keys self"
  by (auto simp: init_def)

text \<open>Texts without quote and NUL characters are read as they stand.\<close>

lemma unquote_no_quote: "CHR 0x27 \<notin> set s \<Longrightarrow> unquote s = Some s"
  by (induction s rule: unquote.induct) auto

lemma literal_safe: "sql_safe s \<Longrightarrow> literal s = Inr s"
  by (simp add: literal_def sql_safe_def unquote_no_quote)

lemma literals_safe: "sql_safe s \<Longrightarrow> sql_safe s' \<Longrightarrow> literals s s' = Inr (s, s')"
  by (simp add: literals_def sql_safe_def unquote_no_quote)

text \<open>
  No call of \<open>create_data\<close> returns: the root check raises, or the engine rejects
  the text of the statement.
\<close>

lemma create_data_raises: "\<exists>e. create_data self taxon c s d p = Inl e"
  by (simp add: create_data_def index_taxa Let_def)

section \<open>Creation\<close>

text \<open>
  Claim C5 (round trip: create, commit, close, reopen, retrieve by name gives the
  attributes inserted). The first step already fails: on a store just initialised,
  \<open>create_data\<close> of a phylum with well-formed attributes raises the engine's
  \<open>OperationalError\<close>, because the statement text of \<open>commands.create_data\<close>
  puts a \<open>*\<close> and the printed Python list where the values are due. Nothing is
  inserted, so there is nothing to read back.
\<close>

theorem create_data_rejected_on_new_store:
  "init None = Inr (store (\<lambda>t. []))
   \<and> create_data (store (\<lambda>t. [])) Phylum ''lanzao-men'' ''Cyanophyta'' '''' None
       = Inl OperationalError"
  by (simp add: init_def store_def create_data_def taxa_def quoted_def)

text \<open>
  Claim C6 (below the root, a parent name that does not exist at the level above makes
  \<open>create_data\<close> fail with a foreign-key error). The call fails, with foreign keys
  switched on by \<open>__init__\<close>, but not on the foreign key: the engine rejects the
  statement text before any constraint is looked at, and raises
  \<open>OperationalError\<close>, not \<open>IntegrityError\<close>.
\<close>

theorem create_data_missing_parent_not_foreign_key:
  "foreign_keys (store example)
   \<and> create_data (store example) Class ''x-gang'' ''X'' '''' (Some ''no-such-men'')
       = Inl OperationalError"
  by (simp add: store_def create_data_def taxa_def quoted_def)

text \<open>
  Claim C7 (at the root a parent other than \<open>None\<close> raises \<open>ValueError\<close> and
  inserts nothing; with \<open>None\<close> the insert proceeds). The first half holds for
  every store and every argument. With \<open>None\<close> the check is passed, but the insert
  does not take place: the engine rejects the statement text.
\<close>

theorem create_data_root_parent:
  "create_data self Phylum c s d (Some p) = Inl ValueError
   \<and> create_data (store example) Phylum ''x-men'' ''X'' '''' None = Inl OperationalError"
  by (simp add: store_def create_data_def taxa_def quoted_def)

text \<open>
  Claim C10 (below the root, \<open>parent=None\<close> passes the check and the statement
  carries the quoted text \<open>None\<close> as the parent, so that the insert succeeds when a
  record of that name exists above and fails on the foreign key otherwise). The
  statement is built as the claim says: its second value is \<open>quoted ''None''\<close>.
  But it is the statement text that the engine rejects, whatever the store holds:
  the call raises \<open>OperationalError\<close>, not a foreign-key error, and never inserts.
\<close>

theorem create_data_parent_None:
  "create_data self Class c s d None
     = (case execute self (commands_create_data Class
                [quoted c @ '', '' @ quoted s @ '', '' @ quoted d, quoted ''None'']) of
          Inl e \<Rightarrow> Inl e | Inr (self', rows) \<Rightarrow> Inr self')
   \<and> create_data (store example) Class ''x-gang'' ''X'' '''' None = Inl OperationalError"
  by (simp add: store_def create_data_def taxa_def quoted_def)

section \<open>The walk to the root: what the two copies do\<close>

text \<open>
  Claim C4 (when a step of the walk finds no parent, the call returns the empty list).
  For a name that is not in the table, the copy in \<open>taxonomy/taxonomy.py\<close> raises
  \<open>TypeError\<close> at \<open>parent[0]\<close>: its loop has no guard for \<open>None\<close>. The copy in
  \<open>TaxonomyDatabase/taxonomy.py\<close> has the guard and returns the empty list.
\<close>

theorem walk_absent_child_raises:
  "retrieve_hierarchical_parents_by_child (store example) Class ''no-such-gang'' False False
     = Inl TypeError
   \<and> retrieve_hierarchical_parents_by_child_TD (store example) Class ''no-such-gang'' False False
     = Inr []"
  by (simp add: retrieve_hierarchical_parents_by_child_def
      retrieve_hierarchical_parents_by_child_TD_def retrieve_data_by_child_def
      store_def example_def taxa_def getitem_def literal_safe sql_safe_def chinese_of_def
      fetchone_def numeral_eq_Suc)

text \<open>
  Claim C3 (with \<open>return_child\<close> and \<open>names_only\<close> the call returns the pairs of
  names from the root down to the record itself). In the copy in
  \<open>TaxonomyDatabase/taxonomy.py\<close> the loop over the collected rows reads
  \<open>names.append[item[:2]]\<close> and raises \<open>TypeError\<close> for every chain that is not
  empty, here for the genus of the example store.
\<close>

theorem names_only_raises_in_TaxonomyDatabase:
  "retrieve_hierarchical_parents_by_child_TD (store example) Genus ''weinangzao-shu'' True True
     = Inl TypeError"
  by (simp add: retrieve_hierarchical_parents_by_child_TD_def retrieve_data_by_child_def
      retrieve_data_by_chinese_def store_def example_def taxa_def getitem_def literal_safe
      sql_safe_def chinese_of_def parent_of_def fetchone_def numeral_eq_Suc)


section \<open>Levels, triggers and foreign keys\<close>

declare delete_where.simps [simp del] update_where.simps [simp del] descendant.simps [simp del]

text \<open>Induction from the leaf level upwards: a level inherits from its child level.\<close>

lemma level_induct [case_names step]:
  assumes "\<And>t. (\<And>c. child_level t = Some c \<Longrightarrow> P c) \<Longrightarrow> P t"
  shows "P t"
proof -
  have s: "P Species" by (rule assms) simp
  have g: "P Genus" by (rule assms) (simp add: s)
  have f: "P Family" by (rule assms) (simp add: g)
  have ord: "P Order" by (rule assms) (simp add: f)
  have c: "P Class" by (rule assms) (simp add: ord)
  have p: "P Phylum" by (rule assms) (simp add: c)
  show ?thesis by (cases t) (simp_all add: s g f ord c p)
qed

lemma child_level_neq: "child_level t = Some c \<Longrightarrow> c \<noteq> t"
  by (cases t) auto

lemma child_level_depth: "child_level t = Some c \<Longrightarrow> depth c = Suc (depth t)"
  by (cases t) auto

lemma parent_child: "parent_level u = Some p \<longleftrightarrow> child_level p = Some u"
  by (cases u; cases p) auto

lemma well_formed_example: "well_formed example"
  by (simp add: well_formed_def fk_ok_def taxa_def example_def columns_def chinese_of_def
      parent_of_def)

subsection \<open>Updates that keep the names\<close>

lemma reparent_same: "parent_of r = n \<Longrightarrow> r[3 := n] = r"
  using list_update_id [of r 3] by (simp add: parent_of_def)

text \<open>An update that changes no row changes no table, whatever triggers it fires.\<close>

lemma update_where_id:
  "(\<forall>r \<in> set (db t). P r \<longrightarrow> f r = r) \<Longrightarrow> update_where t P f db = db"
proof (induction t arbitrary: P f db rule: level_induct)
  case (step t)
  have m: "map (\<lambda>r. if P r then f r else r) (db t) = db t"
    using step.prems by (simp add: map_idI)
  show ?case
  proof (cases "child_level t")
    case None
    then show ?thesis by (subst update_where.simps) (simp add: m)
  next
    case (Some c)
    have "fold (\<lambda>old d. update_where c (\<lambda>r. parent_of r = chinese_of old)
                  (\<lambda>r. r[3 := chinese_of (f old)]) d) (filter P (db t)) = id"
    proof (rule fold_id)
      fix old assume "old \<in> set (filter P (db t))"
      then have fo: "f old = old" using step.prems by simp
      show "(\<lambda>d. update_where c (\<lambda>r. parent_of r = chinese_of old)
                  (\<lambda>r. r[3 := chinese_of (f old)]) d) = id"
      proof (rule ext)
        fix d
        have "update_where c (\<lambda>r. parent_of r = chinese_of old)
                (\<lambda>r. r[3 := chinese_of old]) d = d"
          by (rule step.IH [OF Some]) (simp add: reparent_same)
        then show "update_where c (\<lambda>r. parent_of r = chinese_of old)
                (\<lambda>r. r[3 := chinese_of (f old)]) d = id d" by (simp add: fo)
      qed
    qed
    then show ?thesis by (subst update_where.simps) (simp add: m Some)
  qed
qed

text \<open>
  When the assignment leaves \<open>chinese\<close> as it is, the trigger rewrites each parent
  reference of the child table with the value it has: only table \<open>t\<close> changes.
\<close>

lemma update_where_keeps_names:
  assumes "\<And>r. chinese_of (f r) = chinese_of r"
  shows "update_where t P f db = db(t := map (\<lambda>r. if P r then f r else r) (db t))"
proof (cases "child_level t")
  case None
  then show ?thesis by (subst update_where.simps) simp
next
  case (Some c)
  have "fold (\<lambda>old d. update_where c (\<lambda>r. parent_of r = chinese_of old)
                  (\<lambda>r. r[3 := chinese_of (f old)]) d) (filter P (db t)) = id"
  proof (rule fold_id, rule ext)
    fix old d
    have "update_where c (\<lambda>r. parent_of r = chinese_of old)
            (\<lambda>r. r[3 := chinese_of old]) d = d"
      by (rule update_where_id) (simp add: reparent_same)
    then show "update_where c (\<lambda>r. parent_of r = chinese_of old)
            (\<lambda>r. r[3 := chinese_of (f old)]) d = id d"
      by (simp add: assms)
  qed
  then show ?thesis by (subst update_where.simps) (simp add: Some)
qed

subsection \<open>Statements that open no reference\<close>

lemma orphans_fk_ok:
  assumes "fk_ok db" and "t \<in> set taxa" and "child_level t = Some c"
  shows "orphans db t c = []"
proof -
  have "\<exists>p \<in> set (db t). chinese_of p = parent_of r" if "r \<in> set (db c)" for r
    using assms that by (auto simp: fk_ok_def)
  then have "parent_of r \<in> set (map chinese_of (db t))" if "r \<in> set (db c)" for r
    using that by force
  then show ?thesis by (auto simp: orphans_def filter_empty_conv)
qed

lemma fk_ok_not_opened:
  assumes "fk_ok db'"
  shows "\<not> fk_opened db db'"
proof
  assume "fk_opened db db'"
  then obtain t c q where "t \<in> set taxa" "child_level t = Some c" "q \<in> set (orphans db' t c)"
    by (auto simp: fk_opened_def split: option.splits)
  then show False using orphans_fk_ok [OF assms] by simp
qed

lemma orphans_same_names:
  assumes "map chinese_of (db' t) = map chinese_of (db t)"
    and "map parent_of (db' c) = map parent_of (db c)"
  shows "orphans db' t c = orphans db t c"
  by (simp add: orphans_def assms)

lemma fk_not_opened_same_names:
  assumes "\<And>u. map chinese_of (db' u) = map chinese_of (db u)"
    and "\<And>u. map parent_of (db' u) = map parent_of (db u)"
  shows "\<not> fk_opened db db'"
proof -
  have e: "orphans db' t c = orphans db t c" for t c
    by (rule orphans_same_names) (rule assms)+
  show ?thesis by (simp add: fk_opened_def e split: option.split)
qed


section \<open>Retrieval by parent\<close>

text \<open>
  Counterexample to claim C8 as it is worded, for every parent-name argument. In the
  store \<open>example_quote\<close> the class \<open>x-gang\<close> has the parent \<open>O'Brien\<close>. Asked for
  the classes of that parent, \<open>retrieve_data_by_parent\<close> does not return the record:
  the apostrophe ends the string literal of the statement text, the engine cannot
  compile what follows, and the call raises \<open>OperationalError\<close>.
\<close>

theorem retrieve_data_by_parent_apostrophe:
  "retrieve_data_by_taxon (store example_quote) Class = Inr [[''x-gang'', ''X'', '''', OBrien]]
   \<and> retrieve_data_by_parent (store example_quote) Class (Some OBrien) = Inl OperationalError"
  by (simp add: retrieve_data_by_taxon_def retrieve_data_by_parent_def fetchall_def store_def
      example_quote_def OBrien_def literal_def plain_def quotes_def)

text \<open>
  Claim C8, for arguments without quote and NUL characters. For every store and every
  parent argument, \<open>retrieve_data_by_parent\<close> at the root level returns all rows of
  table \<open>phylum\<close>, whatever the argument. At every other level, for an argument whose
  text has no quote and no NUL character, it returns exactly the rows of that table
  whose parent equals that text, in the order of the table. The text of an argument is
  what the f-string prints: the string itself, and the four letters \<open>None\<close> for the
  absent argument \<open>None\<close>.
\<close>

theorem retrieve_data_by_parent_rows:
  "retrieve_data_by_parent self Phylum parent_chinese = Inr (tables self Phylum)
   \<and> (taxon \<noteq> Phylum \<and> sql_safe (format parent_chinese) \<longrightarrow>
        retrieve_data_by_parent self taxon parent_chinese
          = Inr (filter (\<lambda>r. parent_of r = format parent_chinese) (tables self taxon)))"
  by (simp add: retrieve_data_by_parent_def retrieve_data_by_taxon_def fetchall_def
      literal_safe)

theorem retrieve_data_by_parent_rows_witness:
  "Species \<noteq> Phylum \<and> sql_safe (format (Some ''weinangzao-shu''))
   \<and> retrieve_data_by_parent (store example) Phylum (Some ''anything'')
       = Inr [[''lanzao-men'', ''Cyanophyta'', ''''], [''jiazao-men'', ''Dinophyta'', '''']]
   \<and> retrieve_data_by_parent (store example) Species (Some ''weinangzao-shu'')
       = Inr [[''tonglv'', ''Microcystis aeruginosa'', '''', ''weinangzao-shu''],
              [''shuihua'', ''Microcystis flosaquae'', '''', ''weinangzao-shu'']]"
  using retrieve_data_by_parent_rows [of "store example" "Some ''anything''" Species]
        retrieve_data_by_parent_rows [of "store example" "Some ''weinangzao-shu''" Species]
  by (simp add: store_def example_def sql_safe_def parent_of_def)

text \<open>
  Below the root the absent argument is looked up as the text \<open>None\<close>: a row whose
  parent is that text is returned.
\<close>

lemma retrieve_data_by_parent_None:
  "retrieve_data_by_parent (store ((\<lambda>t. [])(Class := [[''x-gang'', ''X'', '''', ''None'']])))
       Class None
     = Inr [[''x-gang'', ''X'', '''', ''None'']]"
  by (simp add: retrieve_data_by_parent_def fetchall_def store_def literal_safe sql_safe_def
      parent_of_def)

section \<open>Update of the scientific name\<close>




section \<open>Deletion\<close>

subsection \<open>The cascade of the delete triggers\<close>

lemma level_induct_up [case_names step]:
  assumes "\<And>u. (\<And>p. parent_level u = Some p \<Longrightarrow> P p) \<Longrightarrow> P u"
  shows "P u"
proof -
  have p: "P Phylum" by (rule assms) simp
  have c: "P Class" by (rule assms) (simp add: p)
  have ord: "P Order" by (rule assms) (simp add: c)
  have f: "P Family" by (rule assms) (simp add: ord)
  have g: "P Genus" by (rule assms) (simp add: f)
  have s: "P Species" by (rule assms) (simp add: g)
  show ?thesis by (cases u) (simp_all add: s g f ord c p)
qed

lemma parent_level_depth: "parent_level u = Some p \<Longrightarrow> depth u = Suc (depth p)"
  by (cases u) auto

lemma delete_where_frame:
  "depth u < depth t \<Longrightarrow> delete_where t P (db(u := x)) = (delete_where t P db)(u := x)"
proof (induction t arbitrary: P db rule: level_induct)
  case (step t)
  have ne: "u \<noteq> t" using step.prems by auto
  have tw: "\<And>y. (db(u := x))(t := y) = (db(t := y))(u := x)"
    using ne by (simp add: fun_upd_twist)
  show ?case
  proof (cases "child_level t")
    case None
    have e: "delete_where t P db = db(t := filter (\<lambda>r. \<not> P r) (db t))" for P db
      by (subst delete_where.simps) (simp add: None)
    have "delete_where t P (db(u := x)) = (db(u := x))(t := filter (\<lambda>r. \<not> P r) (db t))"
      using ne by (simp add: e)
    also have "\<dots> = (db(t := filter (\<lambda>r. \<not> P r) (db t)))(u := x)" by (rule tw)
    also have "\<dots> = (delete_where t P db)(u := x)" by (simp only: e)
    finally show ?thesis .
  next
    case (Some c)
    have lt: "depth u < depth c" using step.prems child_level_depth [OF Some] by simp
    have fo: "fold (\<lambda>old d. delete_where c (\<lambda>r. parent_of r = chinese_of old) d) olds (d(u := x))
          = (fold (\<lambda>old d. delete_where c (\<lambda>r. parent_of r = chinese_of old) d) olds d)(u := x)"
      for olds d
    proof (induction olds arbitrary: d)
      case Nil
      show ?case by simp
    next
      case (Cons a olds)
      show ?case
        by (simp only: fold_simps comp_apply step.IH [OF Some lt] Cons.IH)
    qed
    have e: "delete_where t P db
               = fold (\<lambda>old d. delete_where c (\<lambda>r. parent_of r = chinese_of old) d)
                   (filter P (db t)) (db(t := filter (\<lambda>r. \<not> P r) (db t)))" for P db
      by (subst delete_where.simps) (simp add: Some)
    let ?f = "\<lambda>old d. delete_where c (\<lambda>r. parent_of r = chinese_of old) d"
    have "delete_where t P (db(u := x))
            = fold ?f (filter P (db t)) ((db(u := x))(t := filter (\<lambda>r. \<not> P r) (db t)))"
      using ne by (simp add: e)
    also have "\<dots> = fold ?f (filter P (db t)) ((db(t := filter (\<lambda>r. \<not> P r) (db t)))(u := x))"
      by (simp only: tw)
    also have "\<dots> = (fold ?f (filter P (db t)) (db(t := filter (\<lambda>r. \<not> P r) (db t))))(u := x)"
      by (rule fo)
    also have "\<dots> = (delete_where t P db)(u := x)" by (simp only: e)
    finally show ?thesis .
  qed
qed

lemma delete_where_above:
  assumes "depth u < depth t"
  shows "delete_where t P db u = db u"
proof -
  have "delete_where t P (db(u := db u)) = (delete_where t P db)(u := db u)"
    using assms by (rule delete_where_frame)
  then have "delete_where t P db = (delete_where t P db)(u := db u)" by simp
  then have "delete_where t P db u = ((delete_where t P db)(u := db u)) u" by simp
  then show ?thesis by simp
qed

lemma delete_where_none: "delete_where t (\<lambda>r. False) db = db"
  by (subst delete_where.simps) (simp split: option.split)

lemma delete_where_fold:
  assumes A: "\<And>P R db. delete_where c P (delete_where c R db) = delete_where c (\<lambda>r. R r \<or> P r) db"
  shows "fold (\<lambda>old d. delete_where c (\<lambda>r. parent_of r = chinese_of old) d) olds db
         = delete_where c (children_of olds) db"
proof (induction olds arbitrary: db)
  case Nil
  then show ?case by (simp add: children_of_def delete_where_none)
next
  case (Cons a olds)
  have "(\<lambda>r. parent_of r = chinese_of a \<or> children_of olds r) = children_of (a # olds)"
    by (rule ext) (simp add: children_of_def)
  then show ?case by (simp add: Cons.IH A)
qed

lemma delete_where_compose:
  "delete_where t P (delete_where t R db) = delete_where t (\<lambda>r. R r \<or> P r) db"
proof (induction t arbitrary: P R db rule: level_induct)
  case (step t)
  show ?case
  proof (cases "child_level t")
    case None
    have e: "delete_where t P db = db(t := filter (\<lambda>r. \<not> P r) (db t))" for P db
      by (subst delete_where.simps) (simp add: None)
    have f: "filter (\<lambda>r. \<not> P r) (filter (\<lambda>r. \<not> R r) (db t))
               = filter (\<lambda>r. \<not> (R r \<or> P r)) (db t)"
      by (simp add: conj_commute)
    show ?thesis by (simp only: e fun_upd_same fun_upd_upd f)
  next
    case (Some c)
    have A: "\<And>P R db. delete_where c P (delete_where c R db) = delete_where c (\<lambda>r. R r \<or> P r) db"
      by (rule step.IH [OF Some])
    have lt: "depth t < depth c" using child_level_depth [OF Some] by simp
    have cf: "delete_where t P db
         = delete_where c (children_of (filter P (db t))) (db(t := filter (\<lambda>r. \<not> P r) (db t)))"
      for P db
      by (subst delete_where.simps) (simp add: Some delete_where_fold [OF A])
    let ?d1 = "delete_where c (children_of (filter R (db t))) (db(t := filter (\<lambda>r. \<not> R r) (db t)))"
    have d1t: "?d1 t = filter (\<lambda>r. \<not> R r) (db t)"
      by (simp add: delete_where_above [OF lt])
    have d1u: "?d1(t := y) = delete_where c (children_of (filter R (db t))) (db(t := y))" for y
      using delete_where_frame [OF lt, of "children_of (filter R (db t))"
          "db(t := filter (\<lambda>r. \<not> R r) (db t))" y]
      by simp
    have q: "(\<lambda>r. children_of (filter R (db t)) r
                  \<or> children_of (filter P (filter (\<lambda>r. \<not> R r) (db t))) r)
             = children_of (filter (\<lambda>r. R r \<or> P r) (db t))"
      by (rule ext) (auto simp: children_of_def)
    have f: "filter (\<lambda>r. \<not> P r) (filter (\<lambda>r. \<not> R r) (db t)) = filter (\<lambda>r. \<not> (R r \<or> P r)) (db t)"
      by (simp add: conj_commute)
    have "delete_where t P (delete_where t R db) = delete_where t P ?d1"
      by (simp add: cf [of R db])
    also have "\<dots> = delete_where c (children_of (filter P (?d1 t))) (?d1(t := filter (\<lambda>r. \<not> P r) (?d1 t)))"
      by (rule cf)
    also have "\<dots> = delete_where c (children_of (filter P (filter (\<lambda>r. \<not> R r) (db t))))
                       (delete_where c (children_of (filter R (db t)))
                          (db(t := filter (\<lambda>r. \<not> P r) (filter (\<lambda>r. \<not> R r) (db t)))))"
      by (simp only: d1t d1u)
    also have "\<dots> = delete_where c (children_of (filter (\<lambda>r. R r \<or> P r) (db t)))
                          (db(t := filter (\<lambda>r. \<not> (R r \<or> P r)) (db t)))"
      by (simp only: A q f)
    also have "\<dots> = delete_where t (\<lambda>r. R r \<or> P r) db"
      by (rule cf [symmetric])
    finally show ?thesis .
  qed
qed

lemma delete_where_closed:
  "child_level t = Some c \<Longrightarrow>
   delete_where t P db
     = delete_where c (children_of (filter P (db t))) (db(t := filter (\<lambda>r. \<not> P r) (db t)))"
  by (subst delete_where.simps) (simp add: delete_where_fold [OF delete_where_compose])


lemma descendant_above: "depth u < depth t \<Longrightarrow> \<not> descendant db t P u r"
proof (induction u arbitrary: r rule: level_induct_up)
  case (step u)
  have ne: "u \<noteq> t" using step.prems by auto
  show ?case
  proof (cases "parent_level u")
    case None
    then show ?thesis using ne by (subst descendant.simps) simp
  next
    case (Some p)
    have "depth p < depth t" using step.prems parent_level_depth [OF Some] by simp
    then have "\<And>q. \<not> descendant db t P p q" by (rule step.IH [OF Some])
    then show ?thesis using ne by (subst descendant.simps) (simp add: Some)
  qed
qed

lemma descendant_self: "descendant db t P t r = P r"
  by (subst descendant.simps) simp

lemma descendant_child:
  "child_level t = Some c \<Longrightarrow>
   descendant db t P c r = (\<exists>q \<in> set (db t). P q \<and> parent_of r = chinese_of q)"
proof -
  assume c: "child_level t = Some c"
  have pl: "parent_level c = Some t" using c by (simp add: parent_child)
  have ne: "c \<noteq> t" using c by (rule child_level_neq)
  show ?thesis using ne by (subst descendant.simps) (simp add: pl descendant_self)
qed

lemma descendant_shift:
  assumes c: "child_level t = Some c"
  shows "u \<noteq> t \<Longrightarrow>
     descendant (db(t := x)) c (children_of (filter P (db t))) u r = descendant db t P u r"
proof (induction u arbitrary: r rule: level_induct_up)
  case (step u)
  have lt: "depth t < depth c" using child_level_depth [OF c] by simp
  show ?case
  proof (cases "u = c")
    case True
    then show ?thesis
      by (auto simp: descendant_self descendant_child [OF c] children_of_def)
  next
    case False
    show ?thesis
    proof (cases "parent_level u")
      case None
      have l: "\<not> descendant (db(t := x)) c (children_of (filter P (db t))) u r"
        using False by (subst descendant.simps) (simp add: None)
      have r: "\<not> descendant db t P u r"
        using step.prems by (subst descendant.simps) (simp add: None)
      show ?thesis using l r by blast
    next
      case (Some p)
      have pt: "p \<noteq> t" using Some False c by (auto simp: parent_child)
      have ih: "\<And>q. descendant (db(t := x)) c (children_of (filter P (db t))) p q
                    = descendant db t P p q"
        using pt by (rule step.IH [OF Some])
      have l: "descendant (db(t := x)) c (children_of (filter P (db t))) u r
               = (\<exists>q \<in> set (db p). descendant db t P p q \<and> parent_of r = chinese_of q)"
        using False pt by (subst descendant.simps) (simp add: Some ih)
      have r: "descendant db t P u r
               = (\<exists>q \<in> set (db p). descendant db t P p q \<and> parent_of r = chinese_of q)"
        using step.prems by (subst descendant.simps) (simp add: Some)
      show ?thesis by (simp only: l r)
    qed
  qed
qed

lemma delete_where_rows:
  "delete_where t P db u = filter (\<lambda>r. \<not> descendant db t P u r) (db u)"
proof (induction t arbitrary: P db rule: level_induct)
  case (step t)
  show ?case
  proof (cases "child_level t")
    case None
    have e: "delete_where t P db = db(t := filter (\<lambda>r. \<not> P r) (db t))"
      by (subst delete_where.simps) (simp add: None)
    show ?thesis
    proof (cases "u = t")
      case True
      then show ?thesis by (simp add: e descendant_self)
    next
      case False
      have "depth u < depth t" using None False by (cases t; cases u) simp_all
      then have "\<And>r. \<not> descendant db t P u r" by (rule descendant_above)
      then show ?thesis using False by (simp add: e)
    qed
  next
    case (Some c)
    let ?Q = "children_of (filter P (db t))"
    let ?db1 = "db(t := filter (\<lambda>r. \<not> P r) (db t))"
    have lt: "depth t < depth c" using child_level_depth [OF Some] by simp
    have "delete_where t P db u = delete_where c ?Q ?db1 u"
      by (simp only: delete_where_closed [OF Some])
    also have "\<dots> = filter (\<lambda>r. \<not> descendant ?db1 c ?Q u r) (?db1 u)"
      by (rule step.IH [OF Some])
    finally have e: "delete_where t P db u = filter (\<lambda>r. \<not> descendant ?db1 c ?Q u r) (?db1 u)" .
    show ?thesis
    proof (cases "u = t")
      case True
      have nd: "\<And>r. descendant ?db1 c ?Q u r = False"
        unfolding True using descendant_above [OF lt] by blast
      have "filter (\<lambda>r. \<not> descendant ?db1 c ?Q u r) (?db1 u) = ?db1 u"
        by (simp only: nd not_False_eq_True) simp
      also have "\<dots> = filter (\<lambda>r. \<not> P r) (db u)" by (simp add: True)
      also have "\<dots> = filter (\<lambda>r. \<not> descendant db t P u r) (db u)"
        by (simp only: True descendant_self)
      finally show ?thesis by (simp only: e)
    next
      case False
      have "filter (\<lambda>r. \<not> descendant ?db1 c ?Q u r) (?db1 u)
              = filter (\<lambda>r. \<not> descendant db t P u r) (?db1 u)"
        by (simp only: descendant_shift [OF Some False])
      also have "\<dots> = filter (\<lambda>r. \<not> descendant db t P u r) (db u)"
        using False by simp
      finally show ?thesis by (simp only: e)
    qed
  qed
qed

text \<open>
  The cascade opens no reference, whatever the store holds: a row that stays has its
  parent as before, unless that parent was missing before.
\<close>

lemma fk_not_opened_delete: "\<not> fk_opened db (delete_where t P db)"
proof
  assume "fk_opened db (delete_where t P db)"
  then obtain t0 c0 q where t0: "child_level t0 = Some c0"
    and q: "q \<in> set (orphans (delete_where t P db) t0 c0)"
    and nq: "q \<notin> set (orphans db t0 c0)"
    by (auto simp: fk_opened_def split: option.splits)
  from q obtain r where r: "r \<in> set (delete_where t P db c0)" "parent_of r = q"
    and miss: "q \<notin> set (map chinese_of (delete_where t P db t0))"
    by (auto simp: orphans_def)
  from r(1) have r0: "r \<in> set (db c0)" and nd: "\<not> descendant db t P c0 r"
    by (simp_all add: delete_where_rows)
  from nq r0 r(2) have "q \<in> set (map chinese_of (db t0))"
    by (auto simp: orphans_def)
  then obtain p where p: "p \<in> set (db t0)" "chinese_of p = q" by auto
  have "\<not> descendant db t P t0 p"
  proof (cases "c0 = t")
    case True
    then have "depth t0 < depth t" using child_level_depth [OF t0] by simp
    then show ?thesis by (rule descendant_above)
  next
    case False
    have pl: "parent_level c0 = Some t0" using t0 by (simp add: parent_child)
    show ?thesis
    proof
      assume "descendant db t P t0 p"
      then have "descendant db t P c0 r"
        using False p r(2) by (subst descendant.simps) (auto simp: pl)
      then show False using nd by simp
    qed
  qed
  then have "p \<in> set (delete_where t P db t0)" using p(1) by (simp add: delete_where_rows)
  then show False using miss p(2) by force
qed

subsection \<open>\<open>delete_data\<close>\<close>

text \<open>
  Counterexample to claim C1 as it is worded, for every record. In the store
  \<open>example_quote\<close> the phylum \<open>O'Brien\<close> is not deleted by \<open>delete_data\<close>: the
  apostrophe of the name ends the string literal of the statement text, the engine
  cannot compile what follows, and the call raises \<open>OperationalError\<close>, the record
  and its class staying in the store.
\<close>

theorem delete_data_apostrophe:
  "retrieve_data_by_taxon (store example_quote) Phylum = Inr [[OBrien, ''Hibernia'', '''']]
   \<and> delete_data (store example_quote) Phylum OBrien = Inl OperationalError"
  by (simp add: retrieve_data_by_taxon_def delete_data_def fetchall_def store_def
      example_quote_def OBrien_def literal_def plain_def quotes_def)

text \<open>
  Claim C1, for names without quote and NUL characters. For every store, every level and
  every name \<open>chinese\<close> without quote and NUL characters, \<open>delete_data taxon chinese\<close>
  returns, and afterwards \<open>retrieve_data_by_taxon\<close> gives, at each of the six levels,
  the rows the table had before without those of the lineage of the deleted record: the
  record itself and, level by level downwards, every row whose parent is the name of a
  row of the lineage. Rows outside the lineage stay, in their order; the levels above
  are as before.
\<close>

theorem delete_data_removes_lineage:
  assumes "sql_safe chinese"
  shows "\<exists>self'. delete_data self taxon chinese = Inr self'
           \<and> (\<forall>u. retrieve_data_by_taxon self' u
                    = Inr (filter (\<lambda>r. \<not> lineage (tables self) taxon chinese u r)
                             (tables self u)))"
proof -
  have "\<not> fk_opened (tables self)
          (delete_where taxon (\<lambda>r. chinese_of r = chinese) (tables self))"
    by (rule fk_not_opened_delete)
  then show ?thesis
    using assms
    by (simp add: delete_data_def check_fk_def retrieve_data_by_taxon_def fetchall_def
        delete_where_rows lineage_def literal_safe)
qed

theorem delete_data_removes_lineage_witness:
  "sql_safe ''lanzao-men''
   \<and> (\<exists>self'. delete_data (store example) Phylum ''lanzao-men'' = Inr self'
         \<and> retrieve_data_by_taxon self' Phylum = Inr [[''jiazao-men'', ''Dinophyta'', '''']]
         \<and> retrieve_data_by_taxon self' Class
             = Inr [[''jiazao-gang'', ''Dinophyceae'', '''', ''jiazao-men'']]
         \<and> retrieve_data_by_taxon self' Order = Inr []
         \<and> retrieve_data_by_taxon self' Family = Inr []
         \<and> retrieve_data_by_taxon self' Genus = Inr []
         \<and> retrieve_data_by_taxon self' Species = Inr [])"
proof -
  have s: "sql_safe ''lanzao-men''" by (simp add: sql_safe_def)
  from delete_data_removes_lineage [OF s, of "store example" Phylum] obtain self'
    where d: "delete_data (store example) Phylum ''lanzao-men'' = Inr self'"
      and r: "\<And>u. retrieve_data_by_taxon self' u
                    = Inr (filter (\<lambda>r. \<not> lineage (tables (store example)) Phylum ''lanzao-men'' u r)
                             (tables (store example) u))"
    by blast
  have p: "retrieve_data_by_taxon self' Phylum = Inr [[''jiazao-men'', ''Dinophyta'', '''']]"
    by (simp add: r store_def example_def lineage_def descendant.simps chinese_of_def parent_of_def)
  have c: "retrieve_data_by_taxon self' Class
             = Inr [[''jiazao-gang'', ''Dinophyceae'', '''', ''jiazao-men'']]"
    by (simp add: r store_def example_def lineage_def descendant.simps chinese_of_def parent_of_def)
  have o: "retrieve_data_by_taxon self' Order = Inr []"
    by (simp add: r store_def example_def lineage_def descendant.simps chinese_of_def parent_of_def)
  have f: "retrieve_data_by_taxon self' Family = Inr []"
    by (simp add: r store_def example_def lineage_def descendant.simps chinese_of_def parent_of_def)
  have g: "retrieve_data_by_taxon self' Genus = Inr []"
    by (simp add: r store_def example_def lineage_def descendant.simps chinese_of_def parent_of_def)
  have sp: "retrieve_data_by_taxon self' Species = Inr []"
    by (simp add: r store_def example_def lineage_def descendant.simps chinese_of_def parent_of_def)
  show ?thesis using s d p c o f g sp by blast
qed

section \<open>Renaming\<close>

subsection \<open>The cascade of the update triggers\<close>

lemma filter_key_single:
  "distinct (map k xs) \<Longrightarrow> a \<in> set xs \<Longrightarrow> filter (\<lambda>r. k r = k a) xs = [a]"
proof (induction xs)
  case Nil
  then show ?case by simp
next
  case (Cons x xs)
  have nx: "k x \<notin> k ` set xs" and d: "distinct (map k xs)" using Cons.prems(1) by simp_all
  show ?case
  proof (cases "a = x")
    case True
    have "\<forall>r \<in> set xs. k r \<noteq> k x" using nx by (metis image_eqI)
    then have "filter (\<lambda>r. k r = k x) xs = []" by (simp add: filter_empty_conv)
    then show ?thesis using True by simp
  next
    case False
    then have a: "a \<in> set xs" using Cons.prems(2) by simp
    then have "k x \<noteq> k a" using nx by auto
    then show ?thesis using Cons.IH [OF d a] by simp
  qed
qed

lemma update_where_rename:
  assumes c: "child_level t = Some c"
    and a: "a \<in> set (db t)" "chinese_of a = old" "a \<noteq> []"
    and d: "distinct (map chinese_of (db t))"
  shows "update_where t (\<lambda>r. chinese_of r = old) (\<lambda>r. r[0 := new]) db
           = (db(t := map (rename old new) (db t)))(c := map (reparent old new) (db c))"
proof -
  let ?db1 = "db(t := map (rename old new) (db t))"
  have ne: "c \<noteq> t" using c by (rule child_level_neq)
  have olds: "filter (\<lambda>r. chinese_of r = old) (db t) = [a]"
    using filter_key_single [OF d a(1)] by (simp add: a(2))
  have n: "chinese_of (a[0 := new]) = new" using a(3) by (simp add: chinese_of_def)
  have m: "map (\<lambda>r. if chinese_of r = old then r[0 := new] else r) (db t)
             = map (rename old new) (db t)"
    by (simp add: rename_def)
  have m2: "map (\<lambda>r. if parent_of r = old then r[3 := new] else r) (db c)
             = map (reparent old new) (db c)"
    by (simp add: reparent_def)
  have c1: "?db1 c = db c" using ne by simp
  have "update_where t (\<lambda>r. chinese_of r = old) (\<lambda>r. r[0 := new]) db
          = update_where c (\<lambda>r. parent_of r = old) (\<lambda>r. r[3 := new]) ?db1"
    by (subst update_where.simps) (simp only: Let_def c option.case olds fold_simps id_apply
        comp_apply n a(2) m)
  also have "\<dots> = ?db1(c := map (\<lambda>r. if parent_of r = old then r[3 := new] else r) (?db1 c))"
    by (rule update_where_keeps_names) (simp add: chinese_of_def)
  also have "\<dots> = ?db1(c := map (reparent old new) (db c))"
    by (simp only: m2 c1)
  finally show ?thesis .
qed


lemma parent_of_rename: "parent_of (rename old new r) = parent_of r"
  by (simp add: rename_def parent_of_def)

lemma chinese_of_rename:
  "r \<noteq> [] \<Longrightarrow> chinese_of (rename old new r) = (if chinese_of r = old then new else chinese_of r)"
  by (simp add: rename_def chinese_of_def)

lemma chinese_of_reparent: "chinese_of (reparent old new r) = chinese_of r"
  by (simp add: reparent_def chinese_of_def)

lemma parent_of_reparent:
  "length r = 4 \<Longrightarrow> parent_of (reparent old new r) = (if parent_of r = old then new else parent_of r)"
  by (simp add: reparent_def parent_of_def)

lemma child_level_below_root: "child_level t = Some c \<Longrightarrow> c \<noteq> Phylum"
  by (cases t) auto

lemma child_level_inj: "child_level t = Some c \<Longrightarrow> child_level t' = Some c \<Longrightarrow> t = t'"
  by (cases t; cases t') auto

lemma well_formed_length: "well_formed db \<Longrightarrow> r \<in> set (db t) \<Longrightarrow> length r = columns t"
  by (cases t) (auto simp: well_formed_def taxa_def)

lemma well_formed_distinct: "well_formed db \<Longrightarrow> distinct (map chinese_of (db t))"
  by (cases t) (auto simp: well_formed_def taxa_def)

lemma well_formed_parent:
  assumes "well_formed db" "child_level t = Some c" "r \<in> set (db c)"
  shows "\<exists>p \<in> set (db t). chinese_of p = parent_of r"
proof -
  have "t \<in> set taxa" by (cases t) (simp_all add: taxa_def)
  moreover have "fk_ok db" using assms(1) by (simp add: well_formed_def)
  ultimately show ?thesis using assms(2,3) by (auto simp: fk_ok_def)
qed

lemma fk_ok_rename:
  assumes wf: "well_formed db" and c: "child_level t = Some c"
  shows "fk_ok ((db(t := map (rename old new) (db t)))(c := map (reparent old new) (db c)))"
    (is "fk_ok ?db'")
  unfolding fk_ok_def
proof (intro ballI)
  fix t0 assume t0: "t0 \<in> set taxa"
  have ne: "c \<noteq> t" using c by (rule child_level_neq)
  have dt: "?db' t = map (rename old new) (db t)" using ne by simp
  have dc: "?db' c = map (reparent old new) (db c)" by simp
  have du: "?db' u = db u" if "u \<noteq> t" "u \<noteq> c" for u using that by simp
  show "case child_level t0 of None \<Rightarrow> True
        | Some c0 \<Rightarrow> \<forall>r\<in>set (?db' c0). \<exists>p\<in>set (?db' t0). chinese_of p = parent_of r"
  proof (cases "child_level t0")
    case None then show ?thesis by simp
  next
    case (Some c0)
    have old: "\<exists>p\<in>set (db t0). chinese_of p = parent_of r" if "r \<in> set (db c0)" for r
      using well_formed_parent [OF wf Some that] .
    have goal: "\<exists>p\<in>set (?db' t0). chinese_of p = parent_of r" if r': "r \<in> set (?db' c0)" for r
    proof -
      consider (top) "t0 = t" | (mid) "t0 = c" | (up) "c0 = t" | (other) "t0 \<noteq> t" "t0 \<noteq> c" "c0 \<noteq> t"
        by blast
      then show ?thesis
      proof cases
        case top
        then have c0: "c0 = c" using Some c by simp
        from r' obtain r0 where r0: "r0 \<in> set (db c)" "r = reparent old new r0"
          unfolding c0 dc by auto
        have l4: "length r0 = 4"
          using well_formed_length [OF wf r0(1)] child_level_below_root [OF c]
          by (simp add: columns_def)
        from old [of r0] r0(1) obtain p where p: "p \<in> set (db t)" "chinese_of p = parent_of r0"
          unfolding c0 top by blast
        have pn: "p \<noteq> []"
          using well_formed_length [OF wf p(1)] by (auto simp: columns_def split: if_splits)
        have "rename old new p \<in> set (?db' t)" unfolding dt using p(1) by simp
        moreover have "chinese_of (rename old new p) = parent_of r"
          unfolding r0(2) by (simp add: chinese_of_rename [OF pn] parent_of_reparent [OF l4] p(2))
        ultimately show ?thesis unfolding top by blast
      next
        case mid
        have c0t: "c0 \<noteq> t" using Some c mid child_level_depth [OF Some] child_level_depth [OF c]
          by auto
        have c0c: "c0 \<noteq> c" using Some mid child_level_neq [OF Some] by simp
        have "r \<in> set (db c0)" using r' du [OF c0t c0c] by simp
        from old [OF this] obtain p where p: "p \<in> set (db c)" "chinese_of p = parent_of r"
          unfolding mid by blast
        have "reparent old new p \<in> set (?db' c)" unfolding dc using p(1) by simp
        moreover have "chinese_of (reparent old new p) = parent_of r"
          by (simp add: chinese_of_reparent p(2))
        ultimately show ?thesis unfolding mid by blast
      next
        case up
        have t0t: "t0 \<noteq> t" using child_level_neq [OF Some] up by simp
        have t0c: "t0 \<noteq> c" using Some c up child_level_depth [OF Some] child_level_depth [OF c]
          by auto
        from r' obtain r0 where r0: "r0 \<in> set (db t)" "r = rename old new r0"
          unfolding up dt by auto
        from old [of r0] r0(1) obtain p where p: "p \<in> set (db t0)" "chinese_of p = parent_of r0"
          unfolding up by blast
        have "p \<in> set (?db' t0)" using p(1) du [OF t0t t0c] by simp
        moreover have "chinese_of p = parent_of r" unfolding r0(2) by (simp add: parent_of_rename p(2))
        ultimately show ?thesis by blast
      next
        case other
        have c0c: "c0 \<noteq> c" using other(1) child_level_inj [OF Some] c by blast
        have "r \<in> set (db c0)" using r' du [OF other(3) c0c] by simp
        from old [OF this] obtain p where p: "p \<in> set (db t0)" "chinese_of p = parent_of r"
          by blast
        have "p \<in> set (?db' t0)" using p(1) du [OF other(1,2)] by simp
        then show ?thesis using p(2) by blast
      qed
    qed
    show ?thesis unfolding Some option.case using goal by blast
  qed
qed


lemma children_under_new_name:
  assumes "\<forall>r \<in> set xs. length r = 4 \<and> parent_of r \<noteq> new"
  shows "filter (\<lambda>r. parent_of r = new) (map (reparent old new) xs)
           = map (\<lambda>r. r[3 := new]) (filter (\<lambda>r. parent_of r = old) xs)"
  using assms by (induction xs) (auto simp: reparent_def parent_of_def)

lemma children_under_old_name:
  assumes "\<forall>r \<in> set xs. length r = 4" and "new \<noteq> old"
  shows "filter (\<lambda>r. parent_of r = old) (map (reparent old new) xs) = []"
  using assms by (induction xs) (auto simp: reparent_def parent_of_def)

text \<open>
  Renaming a record to the name it has is accepted and changes nothing: its children
  are then found under that one name, which is the old name as well as the new one.
\<close>

lemma update_chinese_same_name:
  assumes "sql_safe old"
  shows "update_chinese self taxon old old = Inr self"
proof -
  have "update_where taxon (\<lambda>r. chinese_of r = old) (\<lambda>r. r[0 := old]) (tables self)
          = tables self"
  proof (rule update_where_id, intro ballI impI)
    fix r assume "chinese_of r = old"
    then show "r[0 := old] = r" using list_update_id [of r 0] by (simp add: chinese_of_def)
  qed
  moreover have "\<not> fk_opened (tables self) (tables self)"
    by (rule fk_not_opened_same_names) simp_all
  ultimately show ?thesis
    using assms by (simp add: update_chinese_def check_fk_def literals_safe)
qed

text \<open>
  Renaming a record to the name of another record of its level is refused by the
  primary key of the table, whatever the store holds besides.
\<close>

lemma update_chinese_name_in_use_raises:
  assumes "sql_safe old" and "sql_safe new"
    and "old \<in> set (map chinese_of (tables self taxon))"
    and "new \<in> set (map chinese_of (tables self taxon))"
    and "new \<noteq> old"
  shows "update_chinese self taxon old new = Inl (IntegrityError UNIQUE)"
proof -
  have "\<exists>r \<in> set (tables self taxon). chinese_of r = old" using assms(3) by auto
  moreover have "\<exists>r \<in> set (tables self taxon). chinese_of r = new" using assms(4) by auto
  ultimately show ?thesis
    using assms(1,2,5) by (simp add: update_chinese_def literals_safe)
qed

subsection \<open>\<open>update_chinese\<close>\<close>

text \<open>
  Counterexample to claim C2 as it is worded, for every new name. In the example store
  the phylum \<open>lanzao-men\<close> has the direct child \<open>lanzao-gang\<close>; renaming it to
  \<open>jiazao-men\<close>, the name of the other phylum, is refused by the primary key of the
  table: \<open>update_chinese\<close> raises \<open>IntegrityError\<close>, nothing is written, and
  the child is not to be found under the new name.
\<close>

theorem update_chinese_name_in_use:
  "retrieve_data_by_chinese (store example) Phylum ''lanzao-men''
     = Inr (Some [''lanzao-men'', ''Cyanophyta'', ''''])
   \<and> retrieve_data_by_parent (store example) Class (Some ''lanzao-men'')
       = Inr [[''lanzao-gang'', ''Cyanophyceae'', '''', ''lanzao-men'']]
   \<and> update_chinese (store example) Phylum ''lanzao-men'' ''jiazao-men''
       = Inl (IntegrityError UNIQUE)"
  by (simp add: retrieve_data_by_chinese_def retrieve_data_by_parent_def update_chinese_def
      fetchone_def fetchall_def literal_safe literals_safe sql_safe_def store_def example_def
      chinese_of_def parent_of_def)

text \<open>
  Claim C2, with its provisos. Let the store be well-formed, let \<open>old\<close> be the name
  of a record at a level that has a child level, and let \<open>new\<close> be a name that no
  record of that level has (which excludes new = old), both names without quote and
  NUL characters. Then \<open>update_chinese\<close> returns, and afterwards
  \<open>retrieve_data_by_parent\<close> at the child level gives with the new name exactly the
  former children of \<open>old\<close>, their parent now the new name, in table order, and
  with the old name the empty list.
\<close>

theorem update_chinese_renames_children:
  assumes wf: "well_formed (tables self)" and c: "child_level taxon = Some child"
    and so: "sql_safe old" and sn: "sql_safe new"
    and ex: "old \<in> set (map chinese_of (tables self taxon))"
    and fresh: "new \<notin> set (map chinese_of (tables self taxon))"
  shows "\<exists>self'. update_chinese self taxon old new = Inr self'
           \<and> retrieve_data_by_parent self' child (Some new)
               = Inr (map (\<lambda>r. r[3 := new])
                        (filter (\<lambda>r. parent_of r = old) (tables self child)))
           \<and> retrieve_data_by_parent self' child (Some old) = Inr []"
proof -
  let ?db = "tables self"
  let ?db' = "(?db(taxon := map (rename old new) (?db taxon)))
                 (child := map (reparent old new) (?db child))"
  from ex obtain a where a: "a \<in> set (?db taxon)" "chinese_of a = old" by auto
  have an: "a \<noteq> []"
    using well_formed_length [OF wf a(1)] by (auto simp: columns_def split: if_splits)
  have upd: "update_where taxon (\<lambda>r. chinese_of r = old) (\<lambda>r. r[0 := new]) ?db = ?db'"
    using c a an well_formed_distinct [OF wf] by (rule update_where_rename)
  have fk: "fk_ok ?db'" using wf c by (rule fk_ok_rename)
  have uniq: "\<not> (\<exists>r \<in> set (?db taxon). chinese_of r = new)" using fresh by auto
  have res: "update_chinese self taxon old new = Inr (self\<lparr>tables := ?db'\<rparr>)"
    using uniq fk_ok_not_opened [OF fk, of "tables self"]
    by (simp add: update_chinese_def check_fk_def upd literals_safe [OF sn so])
  have ne: "old \<noteq> new" using ex fresh by auto
  have root: "child \<noteq> Phylum" using c by (rule child_level_below_root)
  have len: "length r = 4" if "r \<in> set (?db child)" for r
    using well_formed_length [OF wf that] root by (simp add: columns_def)
  have par: "parent_of r \<noteq> new" if "r \<in> set (?db child)" for r
    using well_formed_parent [OF wf c that] uniq by metis
  have tc: "tables (self\<lparr>tables := ?db'\<rparr>) child = map (reparent old new) (?db child)"
    by simp
  have new: "retrieve_data_by_parent (self\<lparr>tables := ?db'\<rparr>) child (Some new)
               = Inr (map (\<lambda>r. r[3 := new]) (filter (\<lambda>r. parent_of r = old) (?db child)))"
  proof -
    have "retrieve_data_by_parent (self\<lparr>tables := ?db'\<rparr>) child (Some new)
            = Inr (filter (\<lambda>r. parent_of r = new) (map (reparent old new) (?db child)))"
      using root
      by (simp only: retrieve_data_by_parent_def execute.simps format.simps tc
          literal_safe [OF sn]) (simp add: fetchall_def)
    also have "filter (\<lambda>r. parent_of r = new) (map (reparent old new) (?db child))
                 = map (\<lambda>r. r[3 := new]) (filter (\<lambda>r. parent_of r = old) (?db child))"
      by (rule children_under_new_name) (simp add: len par)
    finally show ?thesis .
  qed
  have old: "retrieve_data_by_parent (self\<lparr>tables := ?db'\<rparr>) child (Some old) = Inr []"
  proof -
    have "retrieve_data_by_parent (self\<lparr>tables := ?db'\<rparr>) child (Some old)
            = Inr (filter (\<lambda>r. parent_of r = old) (map (reparent old new) (?db child)))"
      using root
      by (simp only: retrieve_data_by_parent_def execute.simps format.simps tc
          literal_safe [OF so]) (simp add: fetchall_def)
    also have "filter (\<lambda>r. parent_of r = old) (map (reparent old new) (?db child)) = []"
      using ne by (intro children_under_old_name) (simp_all add: len)
    finally show ?thesis .
  qed
  show ?thesis using res new old by blast
qed

theorem update_chinese_renames_children_witness:
  "well_formed (tables (store example)) \<and> child_level Phylum = Some Class
   \<and> sql_safe ''lanzao-men'' \<and> sql_safe ''lan-men''
   \<and> ''lanzao-men'' \<in> set (map chinese_of (tables (store example) Phylum))
   \<and> ''lan-men'' \<notin> set (map chinese_of (tables (store example) Phylum))
   \<and> (\<exists>self'. update_chinese (store example) Phylum ''lanzao-men'' ''lan-men'' = Inr self'
         \<and> retrieve_data_by_parent self' Class (Some ''lan-men'')
             = Inr [[''lanzao-gang'', ''Cyanophyceae'', '''', ''lan-men'']]
         \<and> retrieve_data_by_parent self' Class (Some ''lanzao-men'') = Inr [])"
proof -
  have wf: "well_formed (tables (store example))"
    by (simp add: store_def well_formed_example)
  have c: "child_level Phylum = Some Class" by simp
  have so: "sql_safe ''lanzao-men''" and sn: "sql_safe ''lan-men''"
    by (simp_all add: sql_safe_def)
  have ex: "''lanzao-men'' \<in> set (map chinese_of (tables (store example) Phylum))"
    by (simp add: store_def example_def chinese_of_def)
  have fresh: "''lan-men'' \<notin> set (map chinese_of (tables (store example) Phylum))"
    by (simp add: store_def example_def chinese_of_def)
  have rows: "map (\<lambda>r. r[3 := ''lan-men''])
                (filter (\<lambda>r. parent_of r = ''lanzao-men'') (tables (store example) Class))
              = [[''lanzao-gang'', ''Cyanophyceae'', '''', ''lan-men'']]"
    by (simp add: store_def example_def parent_of_def)
  from update_chinese_renames_children [OF wf c so sn ex fresh] obtain self'
    where "update_chinese (store example) Phylum ''lanzao-men'' ''lan-men'' = Inr self'"
      and "retrieve_data_by_parent self' Class (Some ''lan-men'')
             = Inr [[''lanzao-gang'', ''Cyanophyceae'', '''', ''lan-men'']]"
      and "retrieve_data_by_parent self' Class (Some ''lanzao-men'') = Inr []"
    unfolding rows by blast
  then show ?thesis using wf c so sn ex fresh by blast
qed

end
